theory Spec2Isabelle
  imports Complex_Main "HOL-Library.Log_Nat" "HOL-Library.Word"
begin

section \<open>Files and the validator\<close>

text \<open>
  A \<open>File\<close> object as the script reads it: its name, its byte size and its declared
  media type. The browser always supplies the three fields as a string, a number and a
  string, so \<open>file.name || ''\<close> and \<open>file.type || ''\<close> are the fields themselves (the
  empty string is the only falsy string, and it is replaced by the empty string).
  Strings are sequences of bytes; a name outside ASCII is its UTF-8 encoding, in which
  the byte of \<open>.\<close> occurs only as the character \<open>.\<close>.
\<close>

record file_obj =
  file_name :: string
  file_size :: nat
  file_type :: string

text \<open>The object returned by \<open>validateFile\<close>: \<open>{ ok, reason }\<close>, the reason absent on success.\<close>

record validation =
  ok :: bool
  reason :: "string option"

text \<open>
  \<open>String.prototype.split\<close> with a separator of one character: the pieces between the
  separators, in order; a string without the separator is its only piece.
\<close>

fun split :: "char \<Rightarrow> string \<Rightarrow> string list" where
  "split c [] = [[]]"
| "split c (x # xs) =
     (if x = c then [] # split c xs
      else (case split c xs of [] \<Rightarrow> [[x]] | p # ps \<Rightarrow> (x # p) # ps))"

text \<open>
  \<open>Array.prototype.pop\<close> returns the last element; \<open>split\<close> never returns the empty
  array (lemma \<open>split_not_Nil\<close>), so \<open>last\<close> is read inside its domain.
\<close>

definition pop :: "'a list \<Rightarrow> 'a" where
  "pop xs = last xs"

text \<open>
  \<open>String.prototype.toLowerCase\<close> on the letters A to Z. Other characters are left as
  they are. JavaScript lowers further code points, none of them to a string of the
  letters \<open>j\<close>, \<open>p\<close>, \<open>e\<close> and \<open>g\<close>, so membership in the allow-list is the same.
\<close>

definition lower_char :: "char \<Rightarrow> char" where
  "lower_char c =
     (let n = (of_char c :: nat) in if 65 \<le> n \<and> n \<le> 90 then char_of (n + 32) else c)"

definition toLowerCase :: "string \<Rightarrow> string" where
  "toLowerCase s = map lower_char s"

definition allowedExt :: "string list" where
  "allowedExt = [''jpg'', ''jpeg'']"

definition allowedMime :: "string list" where
  "allowedMime = [''image/jpeg'']"

definition array_includes :: "'a list \<Rightarrow> 'a \<Rightarrow> bool" where
  "array_includes xs x = (x \<in> set xs)"

definition invalid_file_msg :: string where
  "invalid_file_msg = ''Invalid file. Please upload a JPG or JPEG image.''"

text \<open>\<open>validateFile(file)\<close>; a null or undefined argument is \<open>None\<close>.\<close>

definition validateFile :: "file_obj option \<Rightarrow> validation" where
  "validateFile fo =
     (case fo of
        None \<Rightarrow> \<lparr>ok = False, reason = Some ''No file''\<rparr>
      | Some f \<Rightarrow>
          (let name = file_name f;
               ext = toLowerCase (pop (split CHR ''.'' name));
               mime = file_type f
           in if \<not> array_includes allowedExt ext \<or> \<not> array_includes allowedMime mime
              then \<lparr>ok = False, reason = Some invalid_file_msg\<rparr>
              else \<lparr>ok = True, reason = None\<rparr>))"

text \<open>
  The extension as the specification words it: the substring after the final \<open>.\<close> of the
  name. A name without a \<open>.\<close> has no such substring.
\<close>

fun after_final_dot :: "string \<Rightarrow> string option" where
  "after_final_dot [] = None"
| "after_final_dot (x # xs) =
     (case after_final_dot xs of
        Some e \<Rightarrow> Some e
      | None \<Rightarrow> if x = CHR ''.'' then Some xs else None)"

definition spec_extension_allowed :: "string \<Rightarrow> bool" where
  "spec_extension_allowed name =
     (case after_final_dot name of
        None \<Rightarrow> False
      | Some e \<Rightarrow> toLowerCase e \<in> {''jpg'', ''jpeg''})"

text \<open>The same substring, with the whole name standing in when the name has no \<open>.\<close>.\<close>

definition extension_or_name :: "string \<Rightarrow> string" where
  "extension_or_name name = (case after_final_dot name of None \<Rightarrow> name | Some e \<Rightarrow> e)"

text \<open>Two files for the examples: a JPEG, and a file of the same name and size declared a PNG.\<close>

definition photo_jpg :: file_obj where
  "photo_jpg = \<lparr>file_name = ''photo.JPG'', file_size = 500000, file_type = ''image/jpeg''\<rparr>"

definition photo_as_png :: file_obj where
  "photo_as_png = \<lparr>file_name = ''photo.JPG'', file_size = 500000, file_type = ''image/png''\<rparr>"

section \<open>JavaScript numbers\<close>

text \<open>
  The values a \<open>Number\<close> takes in the size computation: a finite double (a rational),
  \<open>Infinity\<close> or \<open>NaN\<close>. The arguments are natural numbers, so no negative value and
  no negative zero arises.
\<close>

datatype number = Fin rat | PosInfinity | NaN

definition pow2 :: "int \<Rightarrow> rat" where
  "pow2 e = 2 powi e"

text \<open>For \<open>x > 0\<close>, the \<open>e\<close> with \<open>2^e \<le> x < 2^(e+1)\<close>.\<close>

definition binary_exponent :: "rat \<Rightarrow> int" where
  "binary_exponent x =
     (case quotient_of x of
        (a, b) \<Rightarrow> (let k = bitlen a - bitlen b in if pow2 k \<le> x then k else k - 1))"

definition round_half_even :: "rat \<Rightarrow> int" where
  "round_half_even y =
     (let f = \<lfloor>y\<rfloor>; d = y - of_int f
      in if d < 1 / 2 then f
         else if 1 / 2 < d then f + 1
         else if even f then f else f + 1)"

text \<open>
  Rounding of a non-negative real result to binary64, round to nearest, ties to even:
  53 significant bits, the spacing never below \<open>2^-1074\<close> (subnormals), and
  \<open>Infinity\<close> from \<open>2^1024\<close> on.
\<close>

definition round_double :: "rat \<Rightarrow> number" where
  "round_double x =
     (if x = 0 then Fin 0
      else (let q = pow2 (max (binary_exponent x - 52) (- 1074));
                r = of_int (round_half_even (x / q)) * q
            in if r < pow2 1024 then Fin r else PosInfinity))"

text \<open>Half the spacing of the doubles in \<open>[1, 2)\<close>: the relative error of one rounding.\<close>

definition unit_roundoff :: rat where
  "unit_roundoff = 1 / 2 ^ 53"

text \<open>The operator \<open>/\<close> on two natural-number operands.\<close>

definition js_divide :: "nat \<Rightarrow> nat \<Rightarrow> number" where
  "js_divide a b =
     (if b = 0 then (if a = 0 then NaN else PosInfinity)
      else round_double (of_nat a / of_nat b))"

text \<open>The operator \<open>*\<close> on a natural-number operand and a non-negative number.\<close>

fun js_times :: "nat \<Rightarrow> number \<Rightarrow> number" where
  "js_times a (Fin s) = round_double (of_nat a * s)"
| "js_times a PosInfinity = (if a = 0 then NaN else PosInfinity)"
| "js_times a NaN = NaN"

fun Math_min :: "number \<Rightarrow> number \<Rightarrow> number" where
  "Math_min NaN y = NaN"
| "Math_min x NaN = NaN"
| "Math_min PosInfinity y = y"
| "Math_min x PosInfinity = x"
| "Math_min (Fin a) (Fin b) = Fin (min a b)"

fun Math_max :: "number \<Rightarrow> number \<Rightarrow> number" where
  "Math_max NaN y = NaN"
| "Math_max x NaN = NaN"
| "Math_max PosInfinity y = PosInfinity"
| "Math_max x PosInfinity = PosInfinity"
| "Math_max (Fin a) (Fin b) = Fin (max a b)"

fun Math_floor :: "number \<Rightarrow> number" where
  "Math_floor (Fin a) = Fin (of_int \<lfloor>a\<rfloor>)"
| "Math_floor PosInfinity = PosInfinity"
| "Math_floor NaN = NaN"

section \<open>The downscale planner\<close>

definition MAX_DIMENSION :: nat where
  "MAX_DIMENSION = 4096"

record target_size =
  width :: number
  height :: number

text \<open>
  The natural dimensions of an image, \<open>naturalWidth\<close> and \<open>naturalHeight\<close>, are
  attributes of type \<open>unsigned long\<close>.
\<close>

type_synonym unsigned_long = "32 word"

text \<open>
  \<open>calculateTargetSize(width, height, maxDim)\<close> on natural-number arguments (each below
  \<open>2^53\<close>, so that it is a double). Its only caller passes the natural dimensions of
  an image.
\<close>

definition calculateTargetSize :: "nat \<Rightarrow> nat \<Rightarrow> nat \<Rightarrow> target_size" where
  "calculateTargetSize w h maxDim =
     (if w \<le> maxDim \<and> h \<le> maxDim then \<lparr>width = Fin (of_nat w), height = Fin (of_nat h)\<rparr>
      else (let scale = Math_min (js_divide maxDim w) (js_divide maxDim h)
            in \<lparr>width = Math_max (Fin 1) (Math_floor (js_times w scale)),
                height = Math_max (Fin 1) (Math_floor (js_times h scale))\<rparr>))"


text \<open>
  The scale in exact arithmetic, as the specification writes it:
  \<open>min(maxDim / naturalWidth, maxDim / naturalHeight)\<close>.
\<close>

definition exact_scale :: "nat \<Rightarrow> nat \<Rightarrow> nat \<Rightarrow> rat" where
  "exact_scale w h maxDim = min (of_nat maxDim / of_nat w) (of_nat maxDim / of_nat h)"

section \<open>Byte-size formatting\<close>

definition digit_char :: "nat \<Rightarrow> char" where
  "digit_char d = char_of (48 + d)"

text \<open>The decimal digits of a natural number: \<open>String(n)\<close> for an integer below \<open>10^21\<close>.\<close>

fun decimal :: "nat \<Rightarrow> string" where
  "decimal n = (if n < 10 then [digit_char n] else decimal (n div 10) @ [digit_char (n mod 10)])"

declare decimal.simps [simp del]

text \<open>
  \<open>Number.prototype.toFixed(f)\<close> for a non-negative number below \<open>10^21\<close>: the integer
  \<open>n\<close> with \<open>n / 10^f\<close> nearest the number (the larger one of two), written with \<open>f\<close>
  digits after the point. A file size is an unsigned 64-bit count, so the quotients that
  \<open>formatBytes\<close> formats stay below \<open>10^21\<close>.
\<close>

definition toFixed :: "number \<Rightarrow> nat \<Rightarrow> string" where
  "toFixed x f =
     (case x of
        NaN \<Rightarrow> ''NaN''
      | PosInfinity \<Rightarrow> ''Infinity''
      | Fin v \<Rightarrow>
          (let n = nat \<lfloor>v * 10 ^ f + 1 / 2\<rfloor>;
               m = decimal n
           in if f = 0 then m
              else (let m' = (if length m \<le> f then replicate (f + 1 - length m) CHR ''0'' @ m else m);
                        k = length m'
                    in take (k - f) m' @ ''.'' @ drop (k - f) m')))"

definition formatBytes :: "nat \<Rightarrow> string" where
  "formatBytes bytes =
     (if bytes < 1024 then decimal bytes @ '' B''
      else if bytes < 1024 * 1024 then toFixed (js_divide bytes 1024) 1 @ '' KB''
      else toFixed (js_divide bytes (1024 * 1024)) 2 @ '' MB'')"

section \<open>The page state\<close>

text \<open>
  An object URL (\<open>blob:...\<close>) is identified by a number. The state holds the two
  script variables, the properties and attributes of the page elements that the script
  writes, and the live object URLs made for previews with the supply of fresh ones (the
  loader and the download make and revoke URLs of their own).
  An absent attribute and the empty \<open>src\<close> are \<open>None\<close>.
\<close>

type_synonym url = nat

record ui_state =
  currentObjectUrl :: "url option"
  currentFile :: "file_obj option"
  errorMsg_textContent :: string
  fileInfo_textContent :: string
  fileInfo_aria_hidden :: "string option"
  previewImg_src :: "url option"
  previewImg_alt :: "string option"
  previewWrap_hidden :: bool
  detailName_textContent :: string
  detailSize_textContent :: string
  convertBtn_disabled :: bool
  convertBtn_aria_busy :: "string option"
  resetBtn_disabled :: bool
  resetBtn_aria_disabled :: "string option"
  loader_hidden :: bool
  fileInput_value :: string
  blob_urls :: "url list"
  next_blob_url :: url

text \<open>
  \<open>URL.createObjectURL\<close> registers a fresh URL; \<open>URL.revokeObjectURL\<close> removes a URL
  from the store and does nothing for a URL that is not there (it has no failure).
\<close>

definition createObjectURL :: "ui_state \<Rightarrow> url \<times> ui_state" where
  "createObjectURL s =
     (next_blob_url s,
      s\<lparr>blob_urls := next_blob_url s # blob_urls s, next_blob_url := Suc (next_blob_url s)\<rparr>)"

definition revokeObjectURL :: "url \<Rightarrow> ui_state \<Rightarrow> ui_state" where
  "revokeObjectURL u s = s\<lparr>blob_urls := removeAll u (blob_urls s)\<rparr>"

text \<open>\<open>showError(message)\<close>; \<open>message || ''\<close> is the message, or the empty string for none.\<close>

definition showError :: "string option \<Rightarrow> ui_state \<Rightarrow> ui_state" where
  "showError message s =
     s\<lparr>errorMsg_textContent := (case message of None \<Rightarrow> [] | Some m \<Rightarrow> m),
       fileInfo_aria_hidden := Some ''true''\<rparr>"

definition clearError :: "ui_state \<Rightarrow> ui_state" where
  "clearError s = s\<lparr>errorMsg_textContent := [], fileInfo_aria_hidden := None\<rparr>"

definition cleanupPreview :: "ui_state \<Rightarrow> ui_state" where
  "cleanupPreview s =
     (let s1 = (case currentObjectUrl s of
                  None \<Rightarrow> s
                | Some u \<Rightarrow> (revokeObjectURL u s)\<lparr>currentObjectUrl := None\<rparr>)
      in s1\<lparr>previewImg_src := None, previewImg_alt := None, previewWrap_hidden := True,
             detailName_textContent := [], detailSize_textContent := []\<rparr>)"

definition showPreview :: "file_obj \<Rightarrow> ui_state \<Rightarrow> ui_state" where
  "showPreview f s =
     (let s1 = clearError (cleanupPreview s);
          (u, s2) = createObjectURL s1
      in s2\<lparr>currentObjectUrl := Some u, previewImg_src := Some u,
             previewImg_alt := Some (file_name f),
             detailName_textContent := file_name f,
             detailSize_textContent := formatBytes (file_size f),
             previewWrap_hidden := False\<rparr>)"

definition resetUI :: "ui_state \<Rightarrow> ui_state" where
  "resetUI s =
     (let s1 = cleanupPreview s;
          s2 = s1\<lparr>currentFile := None, fileInput_value := []\<rparr>;
          s3 = clearError s2
      in s3\<lparr>fileInfo_textContent := ''No file selected'', convertBtn_disabled := True,
             resetBtn_aria_disabled := Some ''true'', loader_hidden := True\<rparr>)"

definition setLoading :: "bool \<Rightarrow> ui_state \<Rightarrow> ui_state" where
  "setLoading isLoading s =
     (if isLoading
      then s\<lparr>loader_hidden := False, convertBtn_disabled := True, resetBtn_disabled := True,
             convertBtn_aria_busy := Some ''true''\<rparr>
      else (let s1 = s\<lparr>loader_hidden := True, convertBtn_aria_busy := None\<rparr>;
                s2 = (if currentFile s1 \<noteq> None then s1\<lparr>convertBtn_disabled := False\<rparr> else s1)
            in s2\<lparr>resetBtn_disabled := False\<rparr>))"

text \<open>The test \<open>currentFile && file.name === currentFile.name && file.size === currentFile.size\<close>.\<close>

definition same_as_current :: "file_obj \<Rightarrow> ui_state \<Rightarrow> bool" where
  "same_as_current f s =
     (case currentFile s of
        None \<Rightarrow> False
      | Some cur \<Rightarrow> file_name f = file_name cur \<and> file_size f = file_size cur)"

text \<open>
  \<open>handleFiles(files)\<close>: the function has no \<open>await\<close>, so its body runs to its end when it
  is called. A missing list is \<open>None\<close>.
\<close>

definition handleFiles :: "file_obj list option \<Rightarrow> ui_state \<Rightarrow> ui_state" where
  "handleFiles files s =
     (case files of
        None \<Rightarrow> s
      | Some [] \<Rightarrow> s
      | Some (f # rest) \<Rightarrow>
          if same_as_current f s then s
          else (let valid = validateFile (Some f)
                in if \<not> ok valid then showError (reason valid) s
                   else (let s1 = s\<lparr>currentFile := Some f\<rparr>;
                             s2 = showPreview f s1
                         in s2\<lparr>fileInfo_textContent := ''Ready to convert'',
                                convertBtn_disabled := False,
                                resetBtn_aria_disabled := None\<rparr>)))"

text \<open>
  Modelled from the spec: the markup of the page (\<open>index.html\<close>) is not among the
  sources. The fields that \<open>init\<close> and the declarations of the script write are as the
  script leaves them; the others are those of the specification's Empty state (no
  preview shown, no error message).
\<close>

definition initial_state :: ui_state where
  "initial_state =
     \<lparr>currentObjectUrl = None, currentFile = None, errorMsg_textContent = [],
      fileInfo_textContent = ''No file selected'', fileInfo_aria_hidden = None,
      previewImg_src = None, previewImg_alt = None, previewWrap_hidden = True,
      detailName_textContent = [], detailSize_textContent = [],
      convertBtn_disabled = True, convertBtn_aria_busy = None, resetBtn_disabled = False,
      resetBtn_aria_disabled = Some ''true'', loader_hidden = True, fileInput_value = [],
      blob_urls = [], next_blob_url = 0\<rparr>"

text \<open>The page after \<open>photo_jpg\<close> was chosen on the fresh page.\<close>

definition ready_state :: ui_state where
  "ready_state = handleFiles (Some [photo_jpg]) initial_state"

text \<open>
  What reaches the page outside a conversion: the file input changes (its listener clears
  the error and hands the files on), files are dropped (the handler hands on a list that
  is not empty), or reset is clicked.
\<close>

datatype ui_event = Input_changed "file_obj list" | Dropped "file_obj list" | Reset_clicked

fun ui_step :: "ui_event \<Rightarrow> ui_state \<Rightarrow> ui_state" where
  "ui_step (Input_changed fs) s = handleFiles (Some fs) (clearError s)"
| "ui_step (Dropped fs) s = (if fs \<noteq> [] then handleFiles (Some fs) s else s)"
| "ui_step Reset_clicked s = resetUI s"

fun ui_run :: "ui_event list \<Rightarrow> ui_state \<Rightarrow> ui_state" where
  "ui_run [] s = s"
| "ui_run (e # es) s = ui_run es (ui_step e s)"

text \<open>
  The preview reference: the live object URLs are exactly the current preview URL, if
  there is one, and a preview URL is held only together with a selected file.
\<close>

definition preview_invariant :: "ui_state \<Rightarrow> bool" where
  "preview_invariant s =
     (case currentObjectUrl s of
        None \<Rightarrow> blob_urls s = []
      | Some u \<Rightarrow> blob_urls s = [u] \<and> u < next_blob_url s \<and> currentFile s \<noteq> None)"

section \<open>Promises\<close>

text \<open>
  A promise is pending until the first call of its \<open>resolve\<close> or \<open>reject\<close>; later calls
  change nothing.
\<close>

datatype 'a promise = Pending | Fulfilled 'a | Rejected string

definition settle :: "'a promise \<Rightarrow> 'a promise \<Rightarrow> 'a promise" where
  "settle p outcome = (if p = Pending then outcome else p)"

section \<open>The image loader\<close>

record image =
  naturalWidth :: unsigned_long
  naturalHeight :: unsigned_long

datatype timer = Armed | Cleared | Fired

datatype load_call = Resolve_call image | Reject_call string

text \<open>
  The state that one call of \<open>loadImageFromFile\<close> owns: the flag \<open>timedOut\<close>, the timer
  \<open>to\<close>, whether \<open>tmpUrl\<close> is still registered and how often it was revoked, the
  promise, and the calls of \<open>resolve\<close> and \<open>reject\<close> in the order they were made.
\<close>

record load_state =
  timedOut :: bool
  to :: timer
  tmpUrl_live :: bool
  revocations :: nat
  load_promise :: "image promise"
  load_calls :: "load_call list"

definition LOAD_TIMEOUT_MS :: nat where
  "LOAD_TIMEOUT_MS = 15000"

text \<open>
  The executor of the promise: it creates the URL, arms the timer for \<open>LOAD_TIMEOUT_MS\<close>
  and installs the handlers.
\<close>

definition loadImageFromFile :: "file_obj \<Rightarrow> load_state" where
  "loadImageFromFile f =
     \<lparr>timedOut = False, to = Armed, tmpUrl_live = True, revocations = 0,
      load_promise = Pending, load_calls = []\<rparr>"

definition revoke_tmpUrl :: "load_state \<Rightarrow> load_state" where
  "revoke_tmpUrl s = s\<lparr>tmpUrl_live := False, revocations := Suc (revocations s)\<rparr>"

definition clearTimeout :: "load_state \<Rightarrow> load_state" where
  "clearTimeout s = (if to s = Armed then s\<lparr>to := Cleared\<rparr> else s)"

definition resolve_load :: "image \<Rightarrow> load_state \<Rightarrow> load_state" where
  "resolve_load img s =
     s\<lparr>load_promise := settle (load_promise s) (Fulfilled img),
       load_calls := load_calls s @ [Resolve_call img]\<rparr>"

definition reject_load :: "string \<Rightarrow> load_state \<Rightarrow> load_state" where
  "reject_load msg s =
     s\<lparr>load_promise := settle (load_promise s) (Rejected msg),
       load_calls := load_calls s @ [Reject_call msg]\<rparr>"

definition timeout_msg :: string where
  "timeout_msg = ''Image load timed out.''"

text \<open>The three callbacks. The browser runs the timer's callback only while the timer is armed.\<close>

definition on_timeout :: "load_state \<Rightarrow> load_state" where
  "on_timeout s =
     (if to s = Armed
      then reject_load timeout_msg (revoke_tmpUrl (s\<lparr>to := Fired, timedOut := True\<rparr>))
      else s)"

definition onload :: "image \<Rightarrow> load_state \<Rightarrow> load_state" where
  "onload img s =
     (if timedOut s then s
      else resolve_load img (revoke_tmpUrl (clearTimeout s)))"

definition onerror :: "load_state \<Rightarrow> load_state" where
  "onerror s =
     (if timedOut s then s
      else reject_load ''Failed to read image data.'' (revoke_tmpUrl (clearTimeout s)))"

text \<open>What can happen to a load: the time is up, the decoder is done, the decoder failed.\<close>

datatype load_event = Timeout_elapsed | Decode_done image | Decode_failed

fun load_step :: "load_event \<Rightarrow> load_state \<Rightarrow> load_state" where
  "load_step Timeout_elapsed s = on_timeout s"
| "load_step (Decode_done img) s = onload img s"
| "load_step Decode_failed s = onerror s"

fun load_run :: "load_event list \<Rightarrow> load_state \<Rightarrow> load_state" where
  "load_run [] s = s"
| "load_run (e # es) s = load_run es (load_step e s)"

section \<open>The rasterizer and encoder\<close>

datatype blob = PngBlob nat

datatype bitmap = Blank | Drawn image

record canvas =
  canvas_width :: nat
  canvas_height :: nat
  pixels :: bitmap

text \<open>What \<open>canvas.toBlob\<close> does: it calls back with a blob, calls back with null, or throws.\<close>

datatype toBlob_outcome = Calls_back "blob option" | Throws string

text \<open>
  \<open>convertImageToPng\<close> is an \<open>async\<close> function that returns \<open>new Promise(...)\<close>, so
  two promises are at work: the inner one, which \<open>resolve\<close> and \<open>reject\<close> settle at once,
  and the one the function returns to its caller, which takes the outcome of the inner
  one through the job queue. Returning the inner promise queues a job that subscribes the
  returned promise to it (\<open>Adopt_inner\<close>); a subscribed promise that is settled queues
  the job that hands its outcome to the returned promise (\<open>Forward\<close>). Queued jobs run
  only when the running script (the body of the function, or the callback of
  \<open>toBlob\<close>) has come to its end.
\<close>

datatype job = Adopt_inner | Forward "blob promise"

text \<open>
  The operations on the canvas and on the promises. The trace of a conversion lists them
  in the order they happen, each with the canvas as the operation leaves it.
  \<open>Resolve\<close> and \<open>Reject\<close> are the calls of the inner promise's functions;
  \<open>Returned_settles\<close> is the moment the returned promise takes its outcome.
\<close>

datatype conv_action =
    DrawImage
  | ToBlob
  | ClearRect
  | Set_height nat
  | Set_width nat
  | Resolve blob
  | Reject string
  | Returned_settles "blob promise"

record conv_state =
  surface :: "canvas option"
  inner_promise :: "blob promise"
  returned_promise :: "blob promise"
  subscribed :: bool
  microtasks :: "job list"
  conv_trace :: "(conv_action \<times> canvas option) list"

text \<open>
  The value a canvas dimension takes from a number: its integer part, and zero for
  \<open>NaN\<close> and \<open>Infinity\<close>. The target sizes are at most 4096, far from the wrap-around
  of \<open>unsigned long\<close>.
\<close>

fun to_unsigned_long :: "number \<Rightarrow> nat" where
  "to_unsigned_long (Fin v) = nat \<lfloor>v\<rfloor>"
| "to_unsigned_long PosInfinity = 0"
| "to_unsigned_long NaN = 0"

definition on_surface :: "(canvas \<Rightarrow> canvas) \<Rightarrow> conv_state \<Rightarrow> conv_state" where
  "on_surface g s = s\<lparr>surface := map_option g (surface s)\<rparr>"

definition logged :: "conv_action \<Rightarrow> conv_state \<Rightarrow> conv_state" where
  "logged a s = s\<lparr>conv_trace := conv_trace s @ [(a, surface s)]\<rparr>"

text \<open>
  \<open>ctx.drawImage(imgElement, 0, 0, targetW, targetH)\<close>. A new canvas always has a 2d
  context, and \<open>drawImage\<close> throws only for a broken image, whose \<open>naturalWidth\<close> is
  zero; the guard of \<open>convertImageToPng\<close> has turned such an image away.
\<close>

definition drawImage :: "image \<Rightarrow> conv_state \<Rightarrow> conv_state" where
  "drawImage img s = logged DrawImage (on_surface (\<lambda>c. c\<lparr>pixels := Drawn img\<rparr>) s)"

text \<open>\<open>ctx.clearRect(0, 0, canvas.width, canvas.height)\<close>: the whole bitmap becomes blank.\<close>

definition clearRect :: "conv_state \<Rightarrow> conv_state" where
  "clearRect s = logged ClearRect (on_surface (\<lambda>c. c\<lparr>pixels := Blank\<rparr>) s)"

text \<open>Setting a dimension of a canvas also resets its bitmap.\<close>

definition set_height :: "nat \<Rightarrow> conv_state \<Rightarrow> conv_state" where
  "set_height n s = logged (Set_height n) (on_surface (\<lambda>c. c\<lparr>canvas_height := n, pixels := Blank\<rparr>) s)"

definition set_width :: "nat \<Rightarrow> conv_state \<Rightarrow> conv_state" where
  "set_width n s = logged (Set_width n) (on_surface (\<lambda>c. c\<lparr>canvas_width := n, pixels := Blank\<rparr>) s)"

text \<open>
  Settling the inner promise: the first call fixes its outcome, and queues the job for
  the returned promise when that one is subscribed already; a later call changes nothing.
\<close>

definition settle_inner :: "blob promise \<Rightarrow> conv_state \<Rightarrow> conv_state" where
  "settle_inner outcome s =
     (if inner_promise s = Pending
      then s\<lparr>inner_promise := outcome,
             microtasks := microtasks s @ (if subscribed s then [Forward outcome] else [])\<rparr>
      else s)"

definition resolve_conv :: "blob \<Rightarrow> conv_state \<Rightarrow> conv_state" where
  "resolve_conv b s = logged (Resolve b) (settle_inner (Fulfilled b) s)"

definition reject_conv :: "string \<Rightarrow> conv_state \<Rightarrow> conv_state" where
  "reject_conv msg s = logged (Reject msg) (settle_inner (Rejected msg) s)"

text \<open>\<open>return new Promise(...)\<close> at the end of the body of the \<open>async\<close> function.\<close>

definition return_inner :: "conv_state \<Rightarrow> conv_state" where
  "return_inner s = s\<lparr>microtasks := microtasks s @ [Adopt_inner]\<rparr>"

text \<open>
  One job. \<open>Adopt_inner\<close> calls \<open>then\<close> on the inner promise: a pending promise keeps the
  subscription, a settled one queues the job that forwards its outcome. \<open>Forward\<close>
  settles the returned promise.
\<close>

definition run_job :: "job \<Rightarrow> conv_state \<Rightarrow> conv_state" where
  "run_job j s =
     (case j of
        Adopt_inner \<Rightarrow>
          (if inner_promise s = Pending then s\<lparr>subscribed := True\<rparr>
           else s\<lparr>microtasks := microtasks s @ [Forward (inner_promise s)]\<rparr>)
      | Forward p \<Rightarrow>
          logged (Returned_settles p) (s\<lparr>returned_promise := settle (returned_promise s) p\<rparr>))"

fun job_weight :: "job \<Rightarrow> nat" where
  "job_weight Adopt_inner = 2"
| "job_weight (Forward p) = 1"

text \<open>The end of the running script: the queued jobs run, first in first out, until none is left.\<close>

function run_microtasks :: "conv_state \<Rightarrow> conv_state" where
  "run_microtasks s =
     (case microtasks s of
        [] \<Rightarrow> s
      | j # js \<Rightarrow> run_microtasks (run_job j (s\<lparr>microtasks := js\<rparr>)))"
  by pat_completeness auto
termination
  by (relation "measure (\<lambda>s. sum_list (map job_weight (microtasks s)))")
    (auto simp: run_job_def logged_def split: job.splits)

declare run_microtasks.simps [simp del]

text \<open>\<open>canvas.width = canvas.height = 0\<close>: the height is assigned first.\<close>

definition zero_size :: "conv_state \<Rightarrow> conv_state" where
  "zero_size s = set_width 0 (set_height 0 s)"

text \<open>The callback given to \<open>canvas.toBlob\<close>, and the \<open>catch\<close> block around the call.\<close>

definition toBlob_callback :: "blob option \<Rightarrow> conv_state \<Rightarrow> conv_state" where
  "toBlob_callback b s =
     (let s1 = (case b of
                  None \<Rightarrow> reject_conv ''Conversion failed (no output).'' s
                | Some pb \<Rightarrow> resolve_conv pb s)
      in zero_size (clearRect s1))"

definition toBlob_catch :: "string \<Rightarrow> conv_state \<Rightarrow> conv_state" where
  "toBlob_catch err s = reject_conv err (zero_size (clearRect s))"

text \<open>The \<open>throw\<close> at the head of the body: the returned promise is rejected, no canvas is made.\<close>

definition invalid_image :: conv_state where
  "invalid_image =
     \<lparr>surface = None, inner_promise = Pending,
      returned_promise = Rejected ''Invalid image for conversion.'',
      subscribed = False, microtasks = [], conv_trace = []\<rparr>"

text \<open>The canvas sized to the target of an image, before anything is drawn.\<close>

definition target_canvas :: "image \<Rightarrow> canvas" where
  "target_canvas img =
     (let srcW = unat (naturalWidth img);
          srcH = unat (naturalHeight img);
          target = calculateTargetSize srcW srcH MAX_DIMENSION
      in \<lparr>canvas_width = to_unsigned_long (width target),
          canvas_height = to_unsigned_long (height target),
          pixels = Blank\<rparr>)"

text \<open>
  \<open>convertImageToPng(imgElement)\<close> together with the outcome of \<open>canvas.toBlob\<close>, up to
  the moment the returned promise has settled. When \<open>toBlob\<close> throws, the \<open>catch\<close>
  block runs inside the body, the body returns the inner promise, and the queued jobs
  run. Otherwise the body returns the inner promise, the queued jobs run, and later the
  callback runs as a script of its own, followed by the jobs it has queued.
\<close>

definition convertImageToPng :: "image option \<Rightarrow> toBlob_outcome \<Rightarrow> conv_state" where
  "convertImageToPng imgElement outcome =
     (case imgElement of
        None \<Rightarrow> invalid_image
      | Some img \<Rightarrow>
          if naturalWidth img = 0 then invalid_image
          else (let s0 = \<lparr>surface = Some (target_canvas img), inner_promise = Pending,
                          returned_promise = Pending, subscribed = False, microtasks = [],
                          conv_trace = []\<rparr>;
                    s1 = drawImage img s0;
                    s2 = logged ToBlob s1
                in (case outcome of
                      Throws err \<Rightarrow> run_microtasks (return_inner (toBlob_catch err s2))
                    | Calls_back b \<Rightarrow>
                        run_microtasks
                          (toBlob_callback b (run_microtasks (return_inner s2))))))"

text \<open>
  The canvas is released when its bitmap is blank and both dimensions are zero.
  \<open>surface_at\<close> reads from the trace the canvas as the first operation of a kind left
  it: with \<open>is_toBlob\<close> the canvas handed to the encoder, with \<open>is_returned_settle\<close> the
  canvas at the moment the returned promise settles.
\<close>

definition released_canvas :: "canvas \<Rightarrow> bool" where
  "released_canvas c = (canvas_width c = 0 \<and> canvas_height c = 0 \<and> pixels c = Blank)"

definition released :: "conv_state \<Rightarrow> bool" where
  "released s = (case surface s of None \<Rightarrow> False | Some c \<Rightarrow> released_canvas c)"

fun is_toBlob :: "conv_action \<Rightarrow> bool" where
  "is_toBlob ToBlob = True"
| "is_toBlob a = False"

fun is_returned_settle :: "conv_action \<Rightarrow> bool" where
  "is_returned_settle (Returned_settles p) = True"
| "is_returned_settle a = False"

definition surface_at :: "(conv_action \<Rightarrow> bool) \<Rightarrow> conv_state \<Rightarrow> canvas option" where
  "surface_at kind s =
     (case filter (\<lambda>(a, c). kind a) (conv_trace s) of
        [] \<Rightarrow> None
      | (a, c) # rest \<Rightarrow> c)"

definition released_when_returned_settles :: "conv_state \<Rightarrow> bool" where
  "released_when_returned_settles s =
     (case surface_at is_returned_settle s of None \<Rightarrow> False | Some c \<Rightarrow> released_canvas c)"

definition actions :: "conv_state \<Rightarrow> conv_action list" where
  "actions s = map fst (conv_trace s)"

section \<open>Auxiliary facts\<close>

lemma split_not_Nil: "split c s \<noteq> []"
  by (induction s) (auto split: list.splits)

lemma split_dot_cases:
  "(case after_final_dot xs of
      None \<Rightarrow> split CHR ''.'' xs = [xs]
    | Some e \<Rightarrow> (\<exists>p ps. split CHR ''.'' xs = p # ps \<and> ps \<noteq> [] \<and> last ps = e))"
  by (induction xs) (auto split: option.splits list.splits)

lemma pop_split_dot: "pop (split CHR ''.'' name) = extension_or_name name"
  using split_dot_cases [of name]
  by (auto simp: pop_def extension_or_name_def split: option.splits)

lemma validateFile_photo_jpg: "validateFile (Some photo_jpg) = \<lparr>ok = True, reason = None\<rparr>"
  by (simp add: validateFile_def photo_jpg_def pop_def toLowerCase_def lower_char_def
      array_includes_def allowedExt_def allowedMime_def Let_def char_of_eq_iff)

lemma validateFile_photo_as_png:
  "validateFile (Some photo_as_png) = \<lparr>ok = False, reason = Some invalid_file_msg\<rparr>"
  by (simp add: validateFile_def photo_as_png_def array_includes_def allowedMime_def Let_def)

subsection \<open>Powers of two and the binary exponent\<close>

lemma pow2_pos: "0 < pow2 e"
  by (simp add: pow2_def)

lemma pow2_add: "pow2 (a + b) = pow2 a * pow2 b"
  by (simp add: pow2_def power_int_add)

lemma pow2_less_mono: "a < b \<Longrightarrow> pow2 a < pow2 b"
  unfolding pow2_def by (rule power_int_strict_increasing) simp_all

lemma pow2_le_mono: "a \<le> b \<Longrightarrow> pow2 a \<le> pow2 b"
  unfolding pow2_def by (rule power_int_increasing) simp_all

lemma pow2_less_D: "pow2 a < pow2 b \<Longrightarrow> a < b"
  using pow2_le_mono [of b a] by (cases "a < b") simp_all

lemma pow2_nat: "pow2 (int n) = 2 ^ n"
  by (simp add: pow2_def)

lemma pow2_Suc: "pow2 (e + 1) = 2 * pow2 e"
  by (simp add: pow2_def power_int_add_1')

lemma bitlen_pow2_bounds:
  assumes "0 < a"
  shows "pow2 (bitlen a - 1) \<le> of_int a" and "of_int a < pow2 (bitlen a)"
proof -
  have la: "1 \<le> bitlen a" using assms by (simp add: bitlen_alt_def)
  have "(2::int) ^ nat (bitlen a - 1) \<le> a" and "a < 2 ^ nat (bitlen a)"
    using bitlen_bounds [OF assms] by simp_all
  then have "(of_int ((2::int) ^ nat (bitlen a - 1)) :: rat) \<le> of_int a"
    and "(of_int a :: rat) < of_int (2 ^ nat (bitlen a))"
    by (simp_all only: of_int_le_iff of_int_less_iff)
  then show "pow2 (bitlen a - 1) \<le> of_int a" and "of_int a < pow2 (bitlen a)"
    using la by (simp_all add: pow2_def power_int_def)
qed

lemma binary_exponent_bounds:
  assumes "0 < x"
  shows "pow2 (binary_exponent x) \<le> x \<and> x < pow2 (binary_exponent x + 1)"
proof -
  obtain a b where q: "quotient_of x = (a, b)" by (cases "quotient_of x")
  have b: "0 < b" using quotient_of_denom_pos [OF q] .
  have x: "x = of_int a / of_int b" using quotient_of_div [OF q] .
  have a: "0 < a" using assms b x by (simp add: zero_less_divide_iff)
  define k where "k = bitlen a - bitlen b"
  note A = bitlen_pow2_bounds [OF a] and B = bitlen_pow2_bounds [OF b]
  have bpos: "(0::rat) < of_int b" using b by simp
  have "pow2 (k - 1) * of_int b < pow2 (k - 1) * pow2 (bitlen b)"
    using B(2) pow2_pos [of "k - 1"] by simp
  also have "\<dots> = pow2 (bitlen a - 1)"
    by (simp add: k_def flip: pow2_add)
  also have "\<dots> \<le> of_int a" by (rule A(1))
  finally have lo: "pow2 (k - 1) < x"
    using bpos by (simp add: x pos_less_divide_eq)
  have "of_int a < pow2 (bitlen a)" by (rule A(2))
  also have "\<dots> = pow2 (k + 1) * pow2 (bitlen b - 1)"
    by (simp add: k_def flip: pow2_add)
  also have "\<dots> \<le> pow2 (k + 1) * of_int b"
    using B(1) pow2_pos [of "k + 1"] by simp
  finally have hi: "x < pow2 (k + 1)"
    using bpos by (simp add: x pos_divide_less_eq)
  have be: "binary_exponent x = (if pow2 k \<le> x then k else k - 1)"
    by (simp add: binary_exponent_def q k_def Let_def)
  show ?thesis
  proof (cases "pow2 k \<le> x")
    case True
    then show ?thesis using hi be by simp
  next
    case False
    then show ?thesis using lo be by simp
  qed
qed

lemma binary_exponent_eqI:
  assumes "pow2 e \<le> x" and "x < pow2 (e + 1)"
  shows "binary_exponent x = e"
proof -
  have x: "0 < x" using pow2_pos [of e] assms(1) by simp
  note b = binary_exponent_bounds [OF x]
  have "pow2 e < pow2 (binary_exponent x + 1)" using assms(1) b by simp
  then have 1: "e < binary_exponent x + 1" by (rule pow2_less_D)
  have "pow2 (binary_exponent x) < pow2 (e + 1)" using assms(2) b by simp
  then have 2: "binary_exponent x < e + 1" by (rule pow2_less_D)
  from 1 2 show ?thesis by simp
qed

subsection \<open>One rounding: its value and its error\<close>

lemma round_half_even_error: "\<bar>of_int (round_half_even y) - y\<bar> \<le> 1 / 2"
proof -
  have "of_int \<lfloor>y\<rfloor> \<le> y" "y < of_int \<lfloor>y\<rfloor> + 1" by linarith+
  then show ?thesis
    by (auto simp: round_half_even_def Let_def)
qed

lemma floor_rat_numeral: "\<lfloor>numeral a / numeral b :: rat\<rfloor> = numeral a div numeral b"
  using floor_divide_of_int_eq [of "numeral a" "numeral b", where ?'a = rat] by simp

lemma round_double_exponent:
  assumes "pow2 e \<le> x" and "x < pow2 (e + 1)" and "- 1022 \<le> e"
  shows "round_double x =
    (let r = of_int (round_half_even (x / pow2 (e - 52))) * pow2 (e - 52)
     in if r < pow2 1024 then Fin r else PosInfinity)"
proof -
  have x: "x \<noteq> 0" using pow2_pos [of e] assms(1) by auto
  have "binary_exponent x = e" using assms(1,2) by (rule binary_exponent_eqI)
  moreover have "max (e - 52) (- 1074) = e - 52" using assms(3) by simp
  ultimately show ?thesis using x by (simp add: round_double_def Let_def)
qed

lemma round_double_normal:
  assumes lo: "pow2 (- 1022) \<le> x" and hi: "x \<le> pow2 1023"
  shows "\<exists>r. round_double x = Fin r \<and> \<bar>r - x\<bar> \<le> x * unit_roundoff"
proof -
  have x: "0 < x" using pow2_pos [of "- 1022"] lo by simp
  define e where "e = binary_exponent x"
  have b: "pow2 e \<le> x" "x < pow2 (e + 1)"
    using binary_exponent_bounds [OF x] by (simp_all add: e_def)
  have "pow2 (- 1022) < pow2 (e + 1)" using lo b(2) by simp
  then have e_lo: "- 1022 \<le> e" using pow2_less_D [of "- 1022" "e + 1"] by simp
  define q where "q = pow2 (e - 52)"
  define r where "r = of_int (round_half_even (x / q)) * q"
  have q: "0 < q" by (simp add: q_def pow2_pos)
  have rd: "round_double x = (if r < pow2 1024 then Fin r else PosInfinity)"
    using round_double_exponent [OF b e_lo] by (simp add: r_def q_def Let_def)
  have "\<bar>of_int (round_half_even (x / q)) - x / q\<bar> * q \<le> 1 / 2 * q"
    using round_half_even_error [of "x / q"] q by (simp only: mult_le_cancel_right_pos)
  moreover have "\<bar>of_int (round_half_even (x / q)) - x / q\<bar> * q = \<bar>r - x\<bar>"
  proof -
    have "\<bar>of_int (round_half_even (x / q)) - x / q\<bar> * q
        = \<bar>(of_int (round_half_even (x / q)) - x / q) * q\<bar>"
      using q by (simp add: abs_mult)
    also have "(of_int (round_half_even (x / q)) - x / q) * q = r - x"
      using q by (simp add: r_def left_diff_distrib)
    finally show ?thesis .
  qed
  ultimately have err: "\<bar>r - x\<bar> \<le> q / 2" by simp
  have "pow2 e = pow2 (e - 52) * pow2 52"
    by (simp flip: pow2_add)
  then have qe: "q = pow2 e / 2 ^ 52"
    by (simp add: q_def pow2_def)
  have "q / 2 = pow2 e / 2 ^ 53" by (simp add: qe)
  also have "\<dots> \<le> x / 2 ^ 53" using b(1) by (simp add: divide_right_mono)
  finally have q2: "q / 2 \<le> x / 2 ^ 53" .
  with err have bound: "\<bar>r - x\<bar> \<le> x / 2 ^ 53" by simp
  have "r \<le> x + x / 2 ^ 53" using bound by linarith
  also have "\<dots> \<le> pow2 1023 + pow2 1023 / 2 ^ 53"
    using hi by (simp add: add_mono divide_right_mono)
  also have "\<dots> < pow2 1023 * 2" using pow2_pos [of 1023] by simp
  also have "\<dots> = pow2 1024" using pow2_Suc [of 1023] by simp
  finally have "r < pow2 1024" .
  with rd bound show ?thesis by (simp add: unit_roundoff_def)
qed

lemma rel_error_interval:
  fixes r a c :: rat
  assumes "\<bar>r - a\<bar> \<le> a * c"
  shows "a * (1 - c) \<le> r" and "r \<le> a * (1 + c)"
  using assms by (simp_all add: abs_le_iff algebra_simps)

lemma roundoff_facts:
  "0 < unit_roundoff"
  "unit_roundoff \<le> 1 / 2"
  "(1 + unit_roundoff) * (1 + unit_roundoff) \<le> 1 + 3 * unit_roundoff"
  "1 - 3 * unit_roundoff \<le> (1 - unit_roundoff) * (1 - unit_roundoff)"
  "3 * unit_roundoff * 4096 * 2 ^ 32 < 1"
  "4096 * (1 + 3 * unit_roundoff) < 4097"
  by (simp_all add: unit_roundoff_def)

lemma pow2_m1022_le: "pow2 (- 1022) \<le> 1 / 2 ^ 32"
proof -
  have "pow2 (- 1022) \<le> pow2 (- 32)" by (rule pow2_le_mono) simp
  also have "pow2 (- 32) = 1 / 2 ^ 32" by (simp add: pow2_def power_int_minus_divide)
  finally show ?thesis .
qed

lemma pow2_1023_ge: "2 ^ 32 \<le> pow2 1023"
proof -
  have "pow2 32 \<le> pow2 1023" by (rule pow2_le_mono) simp
  moreover have "pow2 32 = 2 ^ 32" using pow2_nat [of 32] by simp
  ultimately show ?thesis by simp
qed

subsection \<open>The operators of the planner\<close>

lemma js_divide_error:
  assumes a: "0 < a" "a < 2 ^ 32" and b: "0 < b" "b < 2 ^ 32"
  shows "\<exists>r. js_divide a b = Fin r \<and>
    \<bar>r - of_nat a / of_nat b\<bar> \<le> (of_nat a / of_nat b) * unit_roundoff"
proof -
  let ?x = "of_nat a / of_nat b :: rat"
  have bq: "(0::rat) < of_nat b" "(of_nat b :: rat) \<le> 2 ^ 32"
    using b by (simp_all add: less_imp_le)
  have aq: "(1::rat) \<le> of_nat a" "(of_nat a :: rat) \<le> 2 ^ 32"
    using a by (simp_all add: less_imp_le Suc_le_eq)
  note pow2_m1022_le
  also have "1 / 2 ^ 32 \<le> 1 / (of_nat b :: rat)"
    using bq by (intro divide_left_mono) simp_all
  also have "\<dots> \<le> ?x" using aq(1) bq(1) by (intro divide_right_mono) simp_all
  finally have lo: "pow2 (- 1022) \<le> ?x" .
  have "1 \<le> (of_nat b :: rat)" using b(1) by (simp add: Suc_le_eq)
  then have "?x \<le> of_nat a / 1" using aq(1) by (intro divide_left_mono) simp_all
  also have "\<dots> \<le> 2 ^ 32" using aq(2) by simp
  also note pow2_1023_ge
  finally have hi: "?x \<le> pow2 1023" .
  show ?thesis
    using round_double_normal [OF lo hi] b(1) by (simp add: js_divide_def)
qed

lemma js_times_error:
  assumes "pow2 (- 1022) \<le> of_nat a * s" and "of_nat a * s \<le> pow2 1023"
  shows "\<exists>y. js_times a (Fin s) = Fin y \<and>
    \<bar>y - of_nat a * s\<bar> \<le> (of_nat a * s) * unit_roundoff"
  using round_double_normal [OF assms] by simp

lemma exact_scale_max:
  assumes "0 < w" and "0 < h"
  shows "exact_scale w h maxDim = of_nat maxDim / of_nat (max w h)"
proof (cases "w \<le> h")
  case True
  then have "(of_nat maxDim :: rat) / of_nat h \<le> of_nat maxDim / of_nat w"
    using assms by (intro divide_left_mono) simp_all
  then show ?thesis using True by (simp add: exact_scale_def max_def min_def)
next
  case False
  then have "(of_nat maxDim :: rat) / of_nat w \<le> of_nat maxDim / of_nat h"
    using assms by (intro divide_left_mono) simp_all
  then show ?thesis using False by (simp add: exact_scale_def max_def min_def)
qed

lemma scale_error:
  fixes w h :: nat
  assumes w: "0 < w" "w < 2 ^ 32" and h: "0 < h" "h < 2 ^ 32"
  defines "S \<equiv> 4096 / of_nat (max w h) :: rat"
  shows "\<exists>s. Math_min (js_divide 4096 w) (js_divide 4096 h) = Fin s \<and>
    S * (1 - unit_roundoff) \<le> s \<and> s \<le> S * (1 + unit_roundoff)"
proof -
  have u: "0 \<le> 1 - unit_roundoff" by (simp add: unit_roundoff_def)
  obtain ra where ra: "js_divide 4096 w = Fin ra"
    "\<bar>ra - 4096 / of_nat w\<bar> \<le> (4096 / of_nat w) * unit_roundoff"
    using js_divide_error [of 4096 w] w by auto
  obtain rb where rb: "js_divide 4096 h = Fin rb"
    "\<bar>rb - 4096 / of_nat h\<bar> \<le> (4096 / of_nat h) * unit_roundoff"
    using js_divide_error [of 4096 h] h by auto
  note ia = rel_error_interval [OF ra(2)] and ib = rel_error_interval [OF rb(2)]
  have Sw: "S \<le> 4096 / of_nat w" unfolding S_def using w(1)
    by (intro divide_left_mono) simp_all
  have Sh: "S \<le> 4096 / of_nat h" unfolding S_def using h(1)
    by (intro divide_left_mono) simp_all
  have lo_a: "S * (1 - unit_roundoff) \<le> ra"
    using mult_right_mono [OF Sw u] ia(1) by simp
  have lo_b: "S * (1 - unit_roundoff) \<le> rb"
    using mult_right_mono [OF Sh u] ib(1) by simp
  have hi: "min ra rb \<le> S * (1 + unit_roundoff)"
  proof (cases "w \<le> h")
    case True
    then have "S = 4096 / of_nat h" by (simp add: S_def max_def)
    then show ?thesis using ib(2) by simp
  next
    case False
    then have "S = 4096 / of_nat w" by (simp add: S_def max_def)
    then show ?thesis using ia(2) by simp
  qed
  show ?thesis using lo_a lo_b hi by (simp add: ra(1) rb(1))
qed

lemma pow2_m1022_le21: "pow2 (- 1022) \<le> 1 / 2 ^ 21"
proof -
  have "pow2 (- 1022) \<le> pow2 (- 21)" by (rule pow2_le_mono) simp
  also have "pow2 (- 21) = 1 / 2 ^ 21" by (simp add: pow2_def power_int_minus_divide)
  finally show ?thesis .
qed

lemma axis_bounds:
  fixes x m :: nat and s :: rat
  assumes x: "0 < x" "x \<le> m" and m: "4096 < m" "m < 2 ^ 32"
    and s: "(4096 / of_nat m) * (1 - unit_roundoff) \<le> s"
           "s \<le> (4096 / of_nat m) * (1 + unit_roundoff)"
  shows "\<exists>n::nat. Math_max (Fin 1) (Math_floor (js_times x (Fin s))) = Fin (of_nat n) \<and>
    1 \<le> n \<and> n \<le> 4096 \<and> n \<le> x \<and> \<bar>(of_nat n :: rat) - of_nat x * (4096 / of_nat m)\<bar> \<le> 1"
proof -
  define u where "u = unit_roundoff"
  define S :: rat where "S = 4096 / of_nat m"
  define t where "t = of_nat x * S"
  define p where "p = of_nat x * s"
  note rf = roundoff_facts [folded u_def]
  have mq: "(4097::rat) \<le> of_nat m" "(of_nat m :: rat) \<le> 2 ^ 32" "(0::rat) < of_nat m"
  proof -
    have "4097 \<le> m" using m(1) by simp
    then have "(of_nat 4097 :: rat) \<le> of_nat m" by (simp only: of_nat_le_iff)
    then show "(4097::rat) \<le> of_nat m" by simp
    then show "(0::rat) < of_nat m" by simp
    show "(of_nat m :: rat) \<le> 2 ^ 32" using m(2) by (simp add: less_imp_le)
  qed
  have xq: "(1::rat) \<le> of_nat x" "(of_nat x :: rat) \<le> of_nat m"
    using x by (simp_all add: Suc_le_eq)
  have S_pos: "0 < S" using mq(3) by (simp add: S_def)
  have Sm: "S * of_nat m = 4096" using mq(3) by (simp add: S_def)
  have S_lo: "1 / 2 ^ 20 \<le> S"
  proof -
    have "4096 / 2 ^ 32 \<le> 4096 / (of_nat m :: rat)"
      using mq by (intro divide_left_mono) simp_all
    then show ?thesis by (simp add: S_def)
  qed
  have tm: "t * of_nat m = 4096 * of_nat x" using Sm by (simp add: t_def mult.assoc)
  have t_pos: "0 < t" using xq(1) S_pos by (simp add: t_def)
  have t_lo: "1 / 2 ^ 20 \<le> t"
  proof -
    have "1 * S \<le> of_nat x * S" using xq(1) S_pos by (intro mult_right_mono) simp_all
    then have "S \<le> t" by (simp add: t_def)
    with S_lo show ?thesis by (rule order_trans)
  qed
  have t_hi: "t \<le> 4096"
  proof -
    have "of_nat x * S \<le> of_nat m * S" using xq(2) S_pos by (intro mult_right_mono) simp_all
    then show ?thesis using Sm by (simp add: t_def mult.commute)
  qed
  have t_x: "t * 4097 \<le> 4096 * of_nat x"
  proof -
    have "t * 4097 \<le> t * of_nat m" using mq(1) t_pos by (intro mult_left_mono) simp_all
    then show ?thesis using tm by simp
  qed
  have p_lo: "t * (1 - u) \<le> p"
  proof -
    have "of_nat x * (S * (1 - u)) \<le> of_nat x * s"
      using s(1) xq(1) by (intro mult_left_mono) (simp_all add: S_def u_def)
    then show ?thesis by (simp add: t_def p_def mult.assoc)
  qed
  have p_hi: "p \<le> t * (1 + u)"
  proof -
    have "of_nat x * s \<le> of_nat x * (S * (1 + u))"
      using s(2) xq(1) by (intro mult_left_mono) (simp_all add: S_def u_def)
    then show ?thesis by (simp add: t_def p_def mult.assoc)
  qed
  have p_pos: "0 < p"
  proof -
    have "0 < t * (1 - u)" using t_pos rf(2) by (intro mult_pos_pos) simp_all
    then show ?thesis using p_lo by simp
  qed
  have p_range: "pow2 (- 1022) \<le> p" "p \<le> pow2 1023"
  proof -
    have "1 / 2 ^ 20 * (1 / 2) \<le> t * (1 - u)"
      using t_lo rf(2) by (intro mult_mono) simp_all
    then have "1 / 2 ^ 21 \<le> p" using p_lo by simp
    then show "pow2 (- 1022) \<le> p" using pow2_m1022_le21 by simp
    have "t * (1 + u) \<le> 4096 * 2"
      using t_hi rf(1,2) t_pos by (intro mult_mono) simp_all
    then have "p \<le> 2 ^ 32" using p_hi by simp
    then show "p \<le> pow2 1023" using pow2_1023_ge by simp
  qed
  obtain y where y: "js_times x (Fin s) = Fin y" "\<bar>y - p\<bar> \<le> p * u"
    using js_times_error [of x s] p_range by (auto simp: p_def u_def)
  note iy = rel_error_interval [OF y(2)]
  have y_hi: "y \<le> t * (1 + 3 * u)"
  proof -
    have "y \<le> p * (1 + u)" by (rule iy(2))
    also have "\<dots> \<le> (t * (1 + u)) * (1 + u)"
      using p_hi rf(1) by (intro mult_right_mono) simp_all
    also have "\<dots> = t * ((1 + u) * (1 + u))" by (simp add: mult.assoc)
    also have "\<dots> \<le> t * (1 + 3 * u)"
      using rf(3) t_pos by (intro mult_left_mono) simp_all
    finally show ?thesis .
  qed
  have y_lo: "t * (1 - 3 * u) \<le> y"
  proof -
    have "t * (1 - 3 * u) \<le> t * ((1 - u) * (1 - u))"
      using rf(4) t_pos by (intro mult_left_mono) simp_all
    also have "\<dots> = (t * (1 - u)) * (1 - u)" by (simp add: mult.assoc)
    also have "\<dots> \<le> p * (1 - u)"
      using p_lo rf(2) by (intro mult_right_mono) simp_all
    also have "\<dots> \<le> y" by (rule iy(1))
    finally show ?thesis .
  qed
  define d where "d = 3 * u * 4096"
  have td: "t * (3 * u) \<le> d"
  proof -
    have "t * (3 * u) \<le> 4096 * (3 * u)" using t_hi rf(1) by (intro mult_right_mono) simp_all
    then show ?thesis by (simp add: d_def)
  qed
  have d_small: "d * of_nat m < 1"
  proof -
    have "0 \<le> d" using rf(1) by (simp add: d_def)
    then have "d * of_nat m \<le> d * 2 ^ 32" using mq(2) by (intro mult_left_mono) simp_all
    also have "\<dots> < 1" using rf(5) by (simp add: d_def)
    finally show ?thesis .
  qed
  have y_hi_d: "y \<le> t + d" using y_hi td by (simp add: algebra_simps)
  have y_lo_d: "t - d \<le> y" using y_lo td by (simp add: algebra_simps)
  have d_lt1: "d < 1"
  proof -
    have "d * 1 \<le> d * of_nat m" using mq(1) rf(1) by (intro mult_left_mono) (simp_all add: d_def)
    then show ?thesis using d_small by simp
  qed
  define k where "k = \<lfloor>y\<rfloor>"
  have k_le: "of_int k \<le> y" and k_gt: "y < of_int k + 1"
    unfolding k_def by linarith+
  define n where "n = nat (max 1 k)"
  have n_rat: "(of_nat n :: rat) = max 1 (of_int k)"
  proof -
    have "(of_nat n :: rat) = of_int (int n)" by simp
    also have "int n = max 1 k" by (simp add: n_def)
    finally show ?thesis by (simp add: max_def)
  qed
  have res: "Math_max (Fin 1) (Math_floor (js_times x (Fin s))) = Fin (of_nat n)"
    unfolding y(1) by (simp add: n_rat k_def)
  have n1: "1 \<le> n" by (simp add: n_def)
  have "y < 4097"
  proof -
    have "y \<le> 4096 * (1 + 3 * u)"
      using y_hi t_hi rf(1) mult_right_mono [of t 4096 "1 + 3 * u"] by simp
    then show ?thesis using rf(6) by simp
  qed
  then have "of_int k < (of_int 4097 :: rat)" using k_le by simp
  then have k4096: "k \<le> 4096" by (simp only: of_int_less_iff)
  have n4096: "n \<le> 4096" using k4096 by (simp add: n_def)
  have "y * 4097 < 4097 * of_nat x"
  proof -
    have "y * 4097 \<le> (t * (1 + 3 * u)) * 4097" using y_hi by simp
    also have "\<dots> = (t * 4097) * (1 + 3 * u)" by (simp add: mult.assoc mult.commute)
    also have "\<dots> \<le> (4096 * of_nat x) * (1 + 3 * u)"
      using t_x rf(1) by (intro mult_right_mono) simp_all
    also have "\<dots> = (4096 * (1 + 3 * u)) * of_nat x" by (simp add: mult.assoc mult.commute)
    also have "\<dots> < 4097 * of_nat x"
      using rf(6) xq(1) by (intro mult_strict_right_mono) simp_all
    finally show ?thesis .
  qed
  then have "y < of_nat x" by simp
  then have "(of_int k :: rat) < of_int (int x)" using k_le by simp
  then have kx: "k < int x" by (simp only: of_int_less_iff)
  have nx: "n \<le> x" using kx x(1) by (simp add: n_def)
  have up: "of_nat n \<le> t + 1"
    using n_rat k_le y_hi_d d_lt1 t_pos by (simp add: max_def)
  have low: "t - 1 \<le> of_int k"
  proof -
    have "t - d - 1 < of_int k" using y_lo_d k_gt by simp
    then have "(t - d - 1) * of_nat m < of_int k * of_nat m"
      using mq(3) by (simp only: mult_less_cancel_right_pos)
    then have "t * of_nat m - of_nat m - d * of_nat m < of_int k * of_nat m"
      by (simp add: algebra_simps)
    then have "4096 * of_nat x - of_nat m - 1 < of_int k * (of_nat m :: rat)"
      using d_small tm by simp
    then have "(of_int (4096 * int x - int m - 1) :: rat) < of_int (k * int m)"
      by simp
    then have "4096 * int x - int m - 1 < k * int m"
      by (simp only: of_int_less_iff)
    then have "4096 * int x - int m \<le> k * int m" by simp
    then have "(of_int (4096 * int x - int m) :: rat) \<le> of_int (k * int m)"
      by (simp only: of_int_le_iff)
    then have "t * of_nat m - of_nat m \<le> of_int k * (of_nat m :: rat)"
      using tm by simp
    then have "(t - 1) * of_nat m \<le> of_int k * (of_nat m :: rat)"
      by (simp add: algebra_simps)
    then show ?thesis using mq(3) by (simp only: mult_le_cancel_right_pos)
  qed
  have low': "t - 1 \<le> of_nat n" using low n_rat by (simp add: max_def)
  have "\<bar>of_nat n - t\<bar> \<le> 1" using up low' by (simp add: abs_le_iff)
  then have err: "\<bar>(of_nat n :: rat) - of_nat x * (4096 / of_nat m)\<bar> \<le> 1"
    by (simp add: t_def S_def)
  from res n1 n4096 nx err show ?thesis by blast
qed

subsection \<open>Evaluating the planner at 8000 by 4000\<close>

lemma divide_4096_8000: "js_divide 4096 8000 = Fin (4611686018427388 / 2 ^ 53)"
  using round_double_exponent [of "- 1" "4096 / 8000"]
  by (simp add: js_divide_def pow2_def round_half_even_def Let_def floor_rat_numeral)

lemma divide_4096_4000: "js_divide 4096 4000 = Fin (4611686018427388 / 2 ^ 52)"
  using round_double_exponent [of "0" "4096 / 4000"]
  by (simp add: js_divide_def pow2_def round_half_even_def Let_def floor_rat_numeral)

lemma times_8000_scale: "js_times 8000 (Fin (4611686018427388 / 2 ^ 53)) = Fin 4096"
  using round_double_exponent [of "12" "8000 * (4611686018427388 / 2 ^ 53)"]
  by (simp add: pow2_def round_half_even_def Let_def floor_rat_numeral)

lemma times_4000_scale: "js_times 4000 (Fin (4611686018427388 / 2 ^ 53)) = Fin 2048"
  using round_double_exponent [of "11" "4000 * (4611686018427388 / 2 ^ 53)"]
  by (simp add: pow2_def round_half_even_def Let_def floor_rat_numeral)

lemma double_0_512: "round_double (512 / 1000) = Fin (4611686018427388 / 2 ^ 53)"
  using round_double_exponent [of "- 1" "512 / 1000"]
  by (simp add: pow2_def round_half_even_def Let_def floor_rat_numeral)

lemma scale_8000_4000:
  "Math_min (js_divide 4096 8000) (js_divide 4096 4000) = Fin (4611686018427388 / 2 ^ 53)"
  by (simp add: divide_4096_8000 divide_4096_4000)

lemma target_8000_4000:
  "calculateTargetSize 8000 4000 4096 = \<lparr>width = Fin 4096, height = Fin 2048\<rparr>"
  unfolding calculateTargetSize_def Let_def scale_8000_4000 times_8000_scale times_4000_scale
  by simp

section \<open>The validator (C1)\<close>

text \<open>
  C1, as stated: a file whose extension (the substring after the final \<open>.\<close> of its name,
  compared without regard to case) is not \<open>jpg\<close> or \<open>jpeg\<close>, or whose media type is not
  exactly \<open>image/jpeg\<close>, is rejected with the invalid-file reason. It fails for a name
  without a \<open>.\<close>: the name \<open>jpg\<close> has no substring after a final \<open>.\<close>, yet
  \<open>name.split('.').pop()\<close> is the whole name and the file is accepted.
\<close>

theorem validateFile_accepts_dotless_name:
  "\<not> spec_extension_allowed ''jpg'' \<and>
   validateFile (Some \<lparr>file_name = ''jpg'', file_size = 0, file_type = ''image/jpeg''\<rparr>)
     = \<lparr>ok = True, reason = None\<rparr>"
  by (simp add: spec_extension_allowed_def validateFile_def pop_def toLowerCase_def
      lower_char_def array_includes_def allowedExt_def allowedMime_def Let_def)

text \<open>
  C1, amended: the extension is the substring after the final \<open>.\<close> of the name, or the
  whole name when the name has no \<open>.\<close>. A missing file is rejected with reason
  \<open>No file\<close>; a file is accepted when its extension in lower case is \<open>jpg\<close> or \<open>jpeg\<close>
  and its media type is exactly \<open>image/jpeg\<close>, and rejected with the invalid-file reason
  otherwise.
\<close>

theorem validateFile_decides:
  "validateFile None = \<lparr>ok = False, reason = Some ''No file''\<rparr> \<and>
   validateFile (Some f) =
     (if toLowerCase (extension_or_name (file_name f)) \<in> {''jpg'', ''jpeg''}
         \<and> file_type f = ''image/jpeg''
      then \<lparr>ok = True, reason = None\<rparr>
      else \<lparr>ok = False, reason = Some ''Invalid file. Please upload a JPG or JPEG image.''\<rparr>)"
  by (auto simp: validateFile_def pop_split_dot array_includes_def allowedExt_def
      allowedMime_def invalid_file_msg_def Let_def)

theorem validateFile_decides_witness:
  "validateFile (Some photo_jpg) = \<lparr>ok = True, reason = None\<rparr> \<and>
   validateFile (Some photo_as_png)
     = \<lparr>ok = False, reason = Some ''Invalid file. Please upload a JPG or JPEG image.''\<rparr>"
  using validateFile_decides [of photo_jpg] validateFile_decides [of photo_as_png]
  by (simp add: photo_jpg_def photo_as_png_def extension_or_name_def toLowerCase_def
      lower_char_def char_of_eq_iff)

section \<open>The downscale planner (C2, C3, C4)\<close>

lemma downscale_bounds:
  fixes w h :: nat
  assumes "0 < w" and "0 < h" and "w < 2 ^ 32" and "h < 2 ^ 32" and "4096 < max w h"
  shows "\<exists>tw th :: nat.
    calculateTargetSize w h 4096 = \<lparr>width = Fin (of_nat tw), height = Fin (of_nat th)\<rparr> \<and>
    max tw th \<le> 4096 \<and> 1 \<le> min tw th \<and> tw \<le> w \<and> th \<le> h \<and>
    \<bar>of_nat tw - of_nat w * exact_scale w h 4096\<bar> \<le> 1 \<and>
    \<bar>of_nat th - of_nat h * exact_scale w h 4096\<bar> \<le> 1"
proof -
  define m where "m = max w h"
  have m: "4096 < m" "m < 2 ^ 32" "w \<le> m" "h \<le> m"
    using assms by (auto simp: m_def)
  obtain s where s: "Math_min (js_divide 4096 w) (js_divide 4096 h) = Fin s"
    "(4096 / of_nat m) * (1 - unit_roundoff) \<le> s"
    "s \<le> (4096 / of_nat m) * (1 + unit_roundoff)"
    using scale_error [OF assms(1,3,2,4)] unfolding m_def by blast
  have es: "exact_scale w h 4096 = 4096 / of_nat m"
    using exact_scale_max [OF assms(1,2), of 4096] by (simp add: m_def)
  obtain tw :: nat where tw:
    "Math_max (Fin 1) (Math_floor (js_times w (Fin s))) = Fin (of_nat tw)"
    "1 \<le> tw" "tw \<le> 4096" "tw \<le> w" "\<bar>(of_nat tw :: rat) - of_nat w * (4096 / of_nat m)\<bar> \<le> 1"
    using axis_bounds [OF assms(1) m(3) m(1) m(2) s(2) s(3)] by blast
  obtain th :: nat where th:
    "Math_max (Fin 1) (Math_floor (js_times h (Fin s))) = Fin (of_nat th)"
    "1 \<le> th" "th \<le> 4096" "th \<le> h" "\<bar>(of_nat th :: rat) - of_nat h * (4096 / of_nat m)\<bar> \<le> 1"
    using axis_bounds [OF assms(2) m(4) m(1) m(2) s(2) s(3)] by blast
  have big: "\<not> (w \<le> 4096 \<and> h \<le> 4096)" using assms(5) by auto
  have "calculateTargetSize w h 4096 = \<lparr>width = Fin (of_nat tw), height = Fin (of_nat th)\<rparr>"
    unfolding calculateTargetSize_def Let_def s(1) tw(1) th(1) using big by auto
  moreover have "max tw th \<le> 4096" "1 \<le> min tw th" using tw(2,3) th(2,3) by simp_all
  ultimately show ?thesis using tw(4,5) th(4,5) unfolding es by blast
qed

lemma unat_unsigned_long: "unat (w :: unsigned_long) < 2 ^ 32"
  using unsigned_less [of w, where ?'a = nat] by simp

text \<open>
  C2: for the natural dimensions \<open>w\<close> and \<open>h\<close> of an image, both positive and the larger
  above 4096, the planner returns whole numbers \<open>tw\<close> and \<open>th\<close> with maximum at most
  4096 and minimum at least 1, neither above its input, and each within one pixel of the
  input scaled by the exact scale \<open>min (4096 / w) (4096 / h)\<close>. The planner computes in
  doubles, and the bounds hold with every rounding counted.
\<close>

theorem calculateTargetSize_downscales:
  fixes w h :: unsigned_long
  assumes "0 < unat w" and "0 < unat h" and "4096 < max (unat w) (unat h)"
  shows "\<exists>tw th :: nat.
    calculateTargetSize (unat w) (unat h) 4096
      = \<lparr>width = Fin (of_nat tw), height = Fin (of_nat th)\<rparr> \<and>
    max tw th \<le> 4096 \<and> 1 \<le> min tw th \<and> tw \<le> unat w \<and> th \<le> unat h \<and>
    \<bar>of_nat tw - of_nat (unat w) * exact_scale (unat w) (unat h) 4096\<bar> \<le> 1 \<and>
    \<bar>of_nat th - of_nat (unat h) * exact_scale (unat w) (unat h) 4096\<bar> \<le> 1"
  using assms unat_unsigned_long [of w] unat_unsigned_long [of h]
  by (intro downscale_bounds)

theorem calculateTargetSize_downscales_witness:
  "0 < unat (8000 :: unsigned_long) \<and> 0 < unat (4000 :: unsigned_long) \<and>
   4096 < max (unat (8000 :: unsigned_long)) (unat (4000 :: unsigned_long)) \<and>
   (\<exists>tw th :: nat.
      calculateTargetSize 8000 4000 4096 = \<lparr>width = Fin (of_nat tw), height = Fin (of_nat th)\<rparr> \<and>
      max tw th \<le> 4096 \<and> 1 \<le> min tw th \<and> tw \<le> 8000 \<and> th \<le> 4000 \<and>
      \<bar>of_nat tw - of_nat 8000 * exact_scale 8000 4000 4096\<bar> \<le> 1 \<and>
      \<bar>of_nat th - of_nat 4000 * exact_scale 8000 4000 4096\<bar> \<le> 1)"
  using calculateTargetSize_downscales [of 8000 4000] by simp

text \<open>
  C3: dimensions that are both at most 4096 are returned unchanged.
\<close>

theorem calculateTargetSize_identity:
  assumes "w \<le> 4096" and "h \<le> 4096"
  shows "calculateTargetSize w h 4096 = \<lparr>width = Fin (of_nat w), height = Fin (of_nat h)\<rparr>"
  using assms by (simp add: calculateTargetSize_def)

theorem calculateTargetSize_identity_witness:
  "(3000::nat) \<le> 4096 \<and> (2000::nat) \<le> 4096 \<and>
   calculateTargetSize 3000 2000 4096 = \<lparr>width = Fin 3000, height = Fin 2000\<rparr>"
  using calculateTargetSize_identity [of 3000 2000] by simp

text \<open>
  C4: for 8000 by 4000 and the maximum 4096 the planner returns exactly 4096 by 2048.
  The exact scale is 0.512, the scale the script computes is the double written
  \<open>0.512\<close>, and the two products round to 4096 and 2048.
\<close>

theorem calculateTargetSize_8000_4000:
  "calculateTargetSize 8000 4000 4096 = \<lparr>width = Fin 4096, height = Fin 2048\<rparr> \<and>
   exact_scale 8000 4000 4096 = 512 / 1000 \<and>
   Math_min (js_divide 4096 8000) (js_divide 4096 4000) = round_double (512 / 1000) \<and>
   Math_floor (js_times 8000 (round_double (512 / 1000))) = Fin 4096 \<and>
   Math_floor (js_times 4000 (round_double (512 / 1000))) = Fin 2048"
  unfolding double_0_512 scale_8000_4000 times_8000_scale times_4000_scale target_8000_4000
  by (simp add: exact_scale_def)

theorem calculateTargetSize_8000_4000_witness:
  "to_unsigned_long (width (calculateTargetSize 8000 4000 4096)) = 4096 \<and>
   to_unsigned_long (height (calculateTargetSize 8000 4000 4096)) = 2048"
  using calculateTargetSize_8000_4000 by simp

section \<open>The image loader (C5)\<close>

lemma after_timeout_ignored:
  assumes "timedOut s" and "to s = Fired"
  shows "load_run evs s = s"
  using assms
proof (induction evs)
  case Nil
  show ?case by simp
next
  case (Cons e evs)
  have "load_step e s = s"
    using Cons.prems by (cases e) (simp_all add: on_timeout_def onload_def onerror_def)
  then show ?case using Cons by simp
qed

text \<open>
  C5: when the time is up before the decoder has answered, the promise is rejected with
  \<open>Image load timed out.\<close>, and whatever arrives afterwards (the image decoded, the
  decoder failed, in any number and order) changes nothing: \<open>reject\<close> was called once
  and \<open>resolve\<close> never, the URL was revoked once, and the promise stays rejected with
  that message.
\<close>

theorem timeout_first_settles_once:
  "load_run (Timeout_elapsed # evs) (loadImageFromFile f) =
     \<lparr>timedOut = True, to = Fired, tmpUrl_live = False, revocations = 1,
      load_promise = Rejected ''Image load timed out.'',
      load_calls = [Reject_call ''Image load timed out.'']\<rparr>"
proof -
  let ?t = "\<lparr>timedOut = True, to = Fired, tmpUrl_live = False, revocations = 1,
      load_promise = Rejected ''Image load timed out.'',
      load_calls = [Reject_call ''Image load timed out.'']\<rparr>"
  have s: "on_timeout (loadImageFromFile f) = ?t"
    by (simp add: loadImageFromFile_def on_timeout_def reject_load_def revoke_tmpUrl_def
        settle_def timeout_msg_def)
  have "load_run evs ?t = ?t"
    by (rule after_timeout_ignored) simp_all
  then show ?thesis by (simp add: s)
qed

theorem timeout_first_settles_once_witness:
  "load_promise
     (load_run [Timeout_elapsed, Decode_done \<lparr>naturalWidth = 3000, naturalHeight = 2000\<rparr>,
                Decode_failed, Timeout_elapsed]
        (loadImageFromFile photo_jpg))
   = Rejected ''Image load timed out.'' \<and>
   load_calls
     (load_run [Timeout_elapsed, Decode_done \<lparr>naturalWidth = 3000, naturalHeight = 2000\<rparr>,
                Decode_failed, Timeout_elapsed]
        (loadImageFromFile photo_jpg))
   = [Reject_call ''Image load timed out.'']"
  using timeout_first_settles_once
    [of "[Decode_done \<lparr>naturalWidth = 3000, naturalHeight = 2000\<rparr>, Decode_failed, Timeout_elapsed]"
        photo_jpg]
  by simp

section \<open>The rasterizer and encoder (C6)\<close>

lemma run_microtasks_Nil:
  "run_microtasks \<lparr>surface = c, inner_promise = p, returned_promise = q, subscribed = b,
     microtasks = [], conv_trace = t\<rparr>
   = \<lparr>surface = c, inner_promise = p, returned_promise = q, subscribed = b,
     microtasks = [], conv_trace = t\<rparr>"
  by (subst run_microtasks.simps) simp

lemma run_microtasks_Cons:
  "run_microtasks \<lparr>surface = c, inner_promise = p, returned_promise = q, subscribed = b,
     microtasks = j # js, conv_trace = t\<rparr>
   = run_microtasks (run_job j \<lparr>surface = c, inner_promise = p, returned_promise = q,
       subscribed = b, microtasks = js, conv_trace = t\<rparr>)"
  by (subst run_microtasks.simps) simp

lemmas conv_defs =
  convertImageToPng_def Let_def toBlob_callback_def toBlob_catch_def drawImage_def
  clearRect_def zero_size_def set_height_def set_width_def resolve_conv_def reject_conv_def
  settle_inner_def return_inner_def run_job_def logged_def on_surface_def settle_def
  run_microtasks_Nil run_microtasks_Cons

lemmas conv_obs =
  released_def released_canvas_def released_when_returned_settles_def surface_at_def
  actions_def

text \<open>
  C6: for an image of positive natural width, on every path of the encoding (a blob is
  delivered, no blob is delivered, \<open>toBlob\<close> throws) the canvas, which was sized to the
  target and held the drawing when it was handed to the encoder, ends cleared with both
  dimensions zero, and it is in that state already at the moment the returned promise
  settles, with the blob or the error of the path. The order of the operations is the
  one listed: when \<open>toBlob\<close> calls back, \<open>resolve\<close> or \<open>reject\<close> is called before the
  release, but it reaches the returned promise only after the callback has ended.
\<close>

theorem released_before_returned_promise_settles:
  assumes "naturalWidth img \<noteq> 0"
  shows
    "surface_at is_toBlob (convertImageToPng (Some img) outcome)
       = Some ((target_canvas img)\<lparr>pixels := Drawn img\<rparr>) \<and>
     released (convertImageToPng (Some img) outcome) \<and>
     released_when_returned_settles (convertImageToPng (Some img) outcome) \<and>
     (case outcome of
        Throws err \<Rightarrow>
          returned_promise (convertImageToPng (Some img) outcome) = Rejected err \<and>
          actions (convertImageToPng (Some img) outcome)
            = [DrawImage, ToBlob, ClearRect, Set_height 0, Set_width 0, Reject err,
               Returned_settles (Rejected err)]
      | Calls_back None \<Rightarrow>
          returned_promise (convertImageToPng (Some img) outcome)
            = Rejected ''Conversion failed (no output).'' \<and>
          actions (convertImageToPng (Some img) outcome)
            = [DrawImage, ToBlob, Reject ''Conversion failed (no output).'', ClearRect,
               Set_height 0, Set_width 0,
               Returned_settles (Rejected ''Conversion failed (no output).'')]
      | Calls_back (Some b) \<Rightarrow>
          returned_promise (convertImageToPng (Some img) outcome) = Fulfilled b \<and>
          actions (convertImageToPng (Some img) outcome)
            = [DrawImage, ToBlob, Resolve b, ClearRect, Set_height 0, Set_width 0,
               Returned_settles (Fulfilled b)])"
proof (cases outcome)
  case (Throws err)
  then show ?thesis using assms by (simp add: conv_defs conv_obs)
next
  case (Calls_back b)
  then show ?thesis using assms by (cases b) (simp_all add: conv_defs conv_obs)
qed

theorem released_before_returned_promise_settles_witness:
  "naturalWidth \<lparr>naturalWidth = 8000, naturalHeight = 4000\<rparr> \<noteq> 0 \<and>
   surface_at is_toBlob (convertImageToPng (Some \<lparr>naturalWidth = 8000, naturalHeight = 4000\<rparr>)
      (Calls_back (Some (PngBlob 7))))
     = Some \<lparr>canvas_width = 4096, canvas_height = 2048,
         pixels = Drawn \<lparr>naturalWidth = 8000, naturalHeight = 4000\<rparr>\<rparr> \<and>
   released (convertImageToPng (Some \<lparr>naturalWidth = 8000, naturalHeight = 4000\<rparr>)
      (Calls_back (Some (PngBlob 7)))) \<and>
   released_when_returned_settles
     (convertImageToPng (Some \<lparr>naturalWidth = 8000, naturalHeight = 4000\<rparr>)
        (Calls_back (Some (PngBlob 7)))) \<and>
   returned_promise (convertImageToPng (Some \<lparr>naturalWidth = 8000, naturalHeight = 4000\<rparr>)
      (Calls_back (Some (PngBlob 7)))) = Fulfilled (PngBlob 7) \<and>
   returned_promise (convertImageToPng (Some \<lparr>naturalWidth = 8000, naturalHeight = 4000\<rparr>)
      (Throws ''SecurityError'')) = Rejected ''SecurityError'' \<and>
   released_when_returned_settles
     (convertImageToPng (Some \<lparr>naturalWidth = 8000, naturalHeight = 4000\<rparr>)
        (Throws ''SecurityError''))"
  using released_before_returned_promise_settles
    [of "\<lparr>naturalWidth = 8000, naturalHeight = 4000\<rparr>" "Calls_back (Some (PngBlob 7))"]
    released_before_returned_promise_settles
    [of "\<lparr>naturalWidth = 8000, naturalHeight = 4000\<rparr>" "Throws ''SecurityError''"]
  by (simp add: target_canvas_def MAX_DIMENSION_def target_8000_4000)

section \<open>The file handler and reset (C7, C8, C9, C10)\<close>

lemma handleFiles_duplicate:
  assumes "same_as_current f s"
  shows "handleFiles (Some (f # rest)) s = s"
  using assms by (simp add: handleFiles_def)

lemma handleFiles_rejected:
  assumes "\<not> same_as_current f s" and "\<not> ok (validateFile (Some f))"
  shows "handleFiles (Some (f # rest)) s = showError (reason (validateFile (Some f))) s"
  using assms by (simp add: handleFiles_def Let_def)

lemma rejected_reason:
  assumes "\<not> ok (validateFile (Some f))"
  shows "reason (validateFile (Some f)) = Some invalid_file_msg"
  using assms by (simp add: validateFile_def Let_def split: if_splits)

lemma ready_state_fields:
  "currentFile ready_state = Some photo_jpg"
  "errorMsg_textContent ready_state = []"
  "currentObjectUrl ready_state = Some 0"
  "blob_urls ready_state = [0]"
  "convertBtn_disabled ready_state = False"
  "previewWrap_hidden ready_state = False"
  by (simp_all add: ready_state_def handleFiles_def same_as_current_def initial_state_def
      validateFile_photo_jpg showPreview_def createObjectURL_def clearError_def
      cleanupPreview_def Let_def)

text \<open>
  C7, as stated: every invalid file submitted while a valid selection is held sets an
  error message and leaves the selection as it is. It fails for an invalid file that has
  the name and the size of the held selection: the handler returns before the validator
  is asked, and no error message is set.
\<close>

theorem invalid_duplicate_sets_no_error:
  "currentFile ready_state = Some photo_jpg \<and>
   \<not> ok (validateFile (Some photo_as_png)) \<and>
   errorMsg_textContent (handleFiles (Some [photo_as_png]) ready_state) = []"
proof -
  have "same_as_current photo_as_png ready_state"
    by (simp add: same_as_current_def ready_state_fields photo_as_png_def photo_jpg_def)
  then have "handleFiles (Some [photo_as_png]) ready_state = ready_state"
    by (rule handleFiles_duplicate)
  then show ?thesis
    by (simp add: ready_state_fields validateFile_photo_as_png)
qed

text \<open>
  C7, amended: every invalid file whose name or byte size differs from the held
  selection's, submitted while that selection is held, sets the error message to the
  validator's reason and hides the file details from assistive technology, and changes
  nothing else: the stored file, the preview and the state of the convert button stay as
  they were.
\<close>

theorem rejected_input_only_sets_error:
  assumes "currentFile s = Some cur"
    and "\<not> ok (validateFile (Some f))"
    and "file_name f \<noteq> file_name cur \<or> file_size f \<noteq> file_size cur"
  shows "handleFiles (Some (f # rest)) s =
    s\<lparr>errorMsg_textContent := ''Invalid file. Please upload a JPG or JPEG image.'',
      fileInfo_aria_hidden := Some ''true''\<rparr>"
proof -
  have "\<not> same_as_current f s"
    using assms(1,3) by (auto simp: same_as_current_def)
  then have "handleFiles (Some (f # rest)) s = showError (Some invalid_file_msg) s"
    using handleFiles_rejected [of f s rest] rejected_reason [OF assms(2)] assms(2) by simp
  then show ?thesis by (simp add: showError_def invalid_file_msg_def)
qed

theorem rejected_input_only_sets_error_witness:
  "currentFile ready_state = Some photo_jpg \<and>
   ok (validateFile (Some \<lparr>file_name = ''doc.pdf'', file_size = 1000,
     file_type = ''application/pdf''\<rparr>)) = False \<and>
   file_name \<lparr>file_name = ''doc.pdf'', file_size = 1000, file_type = ''application/pdf''\<rparr>
     \<noteq> file_name photo_jpg \<and>
   handleFiles (Some [\<lparr>file_name = ''doc.pdf'', file_size = 1000,
     file_type = ''application/pdf''\<rparr>]) ready_state =
     ready_state\<lparr>errorMsg_textContent := ''Invalid file. Please upload a JPG or JPEG image.'',
       fileInfo_aria_hidden := Some ''true''\<rparr>"
proof -
  let ?pdf = "\<lparr>file_name = ''doc.pdf'', file_size = 1000, file_type = ''application/pdf''\<rparr>"
  have v: "\<not> ok (validateFile (Some ?pdf))"
    by (simp add: validateFile_def array_includes_def allowedMime_def Let_def)
  have n: "file_name ?pdf \<noteq> file_name photo_jpg \<or> file_size ?pdf \<noteq> file_size photo_jpg"
    by (simp add: photo_jpg_def)
  show ?thesis
    using rejected_input_only_sets_error [OF ready_state_fields(1) v n, of "[]"] v
      ready_state_fields(1)
    by (simp add: photo_jpg_def)
qed

text \<open>
  C8: while a selection is held (as it is in the Ready state), submitting a file whose
  name and byte size both equal the selection's changes no field of the state; in
  particular no new preview URL is created.
\<close>

theorem reselect_same_file_noop:
  assumes "currentFile s = Some cur"
    and "file_name f = file_name cur" and "file_size f = file_size cur"
  shows "handleFiles (Some (f # rest)) s = s"
  using assms by (simp add: handleFiles_def same_as_current_def)

theorem reselect_same_file_noop_witness:
  "currentFile ready_state = Some photo_jpg \<and>
   handleFiles (Some [photo_jpg]) ready_state = ready_state"
  using reselect_same_file_noop [OF ready_state_fields(1), of photo_jpg "[]"]
  by (simp add: ready_state_fields)

text \<open>
  C9: \<open>resetUI\<close> called twice gives the state that one call gives, and that state is
  empty: no file, no preview URL, the preview hidden, no error message, the convert
  button disabled. Neither call can throw: every statement of \<open>resetUI\<close> and
  \<open>cleanupPreview\<close> is an assignment or a call that the browser defines for every
  argument, so the two are total functions of the state.
\<close>

theorem resetUI_idempotent:
  "resetUI (resetUI s) = resetUI s \<and>
   currentFile (resetUI s) = None \<and>
   currentObjectUrl (resetUI s) = None \<and>
   previewImg_src (resetUI s) = None \<and>
   previewWrap_hidden (resetUI s) \<and>
   errorMsg_textContent (resetUI s) = [] \<and>
   convertBtn_disabled (resetUI s)"
  by (cases "currentObjectUrl s")
    (simp_all add: resetUI_def cleanupPreview_def clearError_def revokeObjectURL_def Let_def)

theorem resetUI_idempotent_witness:
  "resetUI (resetUI ready_state) = resetUI ready_state \<and>
   currentFile (resetUI ready_state) = None \<and>
   convertBtn_disabled (resetUI ready_state)"
  using resetUI_idempotent [of ready_state] by simp

text \<open>
  C10: the comparison of name and size with the held selection comes before the
  validation. A file with the name and the size of the held selection that the validator
  would reject leaves the state as it is: the handler does not take the rejection path,
  which would have put the validator's reason on the page.
\<close>

theorem duplicate_check_before_validation:
  assumes "currentFile s = Some cur"
    and "file_name f = file_name cur" and "file_size f = file_size cur"
    and "\<not> ok (validateFile (Some f))"
  shows "handleFiles (Some (f # rest)) s = s \<and>
    errorMsg_textContent (showError (reason (validateFile (Some f))) s)
      = ''Invalid file. Please upload a JPG or JPEG image.''"
proof -
  have "same_as_current f s" using assms(1-3) by (simp add: same_as_current_def)
  then have "handleFiles (Some (f # rest)) s = s" by (rule handleFiles_duplicate)
  moreover have "errorMsg_textContent (showError (reason (validateFile (Some f))) s)
      = ''Invalid file. Please upload a JPG or JPEG image.''"
    using rejected_reason [OF assms(4)] by (simp add: showError_def invalid_file_msg_def)
  ultimately show ?thesis by simp
qed

theorem duplicate_check_before_validation_witness:
  "currentFile ready_state = Some photo_jpg \<and>
   file_name photo_as_png = file_name photo_jpg \<and>
   file_size photo_as_png = file_size photo_jpg \<and>
   ok (validateFile (Some photo_as_png)) = False \<and>
   handleFiles (Some [photo_as_png]) ready_state = ready_state \<and>
   errorMsg_textContent ready_state = []"
proof -
  have n: "file_name photo_as_png = file_name photo_jpg"
    and z: "file_size photo_as_png = file_size photo_jpg"
    by (simp_all add: photo_as_png_def photo_jpg_def)
  have v: "\<not> ok (validateFile (Some photo_as_png))"
    by (simp add: validateFile_photo_as_png)
  show ?thesis
    using duplicate_check_before_validation [OF ready_state_fields(1) n z v, of "[]"] n z v
    by (simp add: ready_state_fields)
qed

section \<open>Further properties\<close>

subsection \<open>Rounding in the planner\<close>

lemma divide_4096_4237: "js_divide 4096 4237 = Fin (8707455309751971 / 2 ^ 53)"
  using round_double_exponent [of "- 1" "4096 / 4237"]
  by (simp add: js_divide_def pow2_def round_half_even_def Let_def floor_rat_numeral)

lemma divide_4096_1: "js_divide 4096 1 = Fin 4096"
  using round_double_exponent [of "12" "4096"]
  by (simp add: js_divide_def pow2_def round_half_even_def Let_def floor_rat_numeral)

lemma times_4237_scale:
  "js_times 4237 (Fin (8707455309751971 / 2 ^ 53)) = Fin (9007199254740991 / 2 ^ 41)"
  using round_double_exponent [of "11" "4237 * (8707455309751971 / 2 ^ 53)"]
  by (simp add: pow2_def round_half_even_def Let_def floor_rat_numeral)

lemma times_1_scale:
  "js_times 1 (Fin (8707455309751971 / 2 ^ 53)) = Fin (8707455309751971 / 2 ^ 53)"
  using round_double_exponent [of "- 1" "8707455309751971 / 2 ^ 53"]
  by (simp add: pow2_def round_half_even_def Let_def floor_rat_numeral)

text \<open>
  For 4237 by 1 the planner returns 4095 by 1, not 4096 by 1: the quotient
  \<open>4096 / 4237\<close> is rounded down to a double, and its product with 4237 is the
  double just below 4096.
\<close>

theorem calculateTargetSize_4237_1:
  "calculateTargetSize 4237 1 4096 = \<lparr>width = Fin 4095, height = Fin 1\<rparr>"
proof -
  have s: "Math_min (js_divide 4096 4237) (js_divide 4096 1) = Fin (8707455309751971 / 2 ^ 53)"
    unfolding divide_4096_4237 divide_4096_1 by simp
  show ?thesis
    unfolding calculateTargetSize_def Let_def s times_4237_scale times_1_scale
    by (simp add: floor_rat_numeral)
qed

theorem calculateTargetSize_4237_1_witness:
  "to_unsigned_long (width (calculateTargetSize 4237 1 4096)) = 4095"
  using calculateTargetSize_4237_1 by simp

lemma divide_4096_wide: "js_divide 4096 8377593692161 = Fin (1182143784742135 / 2 ^ 81)"
  using round_double_exponent [of "- 31" "4096 / 8377593692161"]
  by (simp add: js_divide_def pow2_def round_half_even_def Let_def floor_rat_numeral)

lemma divide_4096_tall: "js_divide 4096 8375548381201 = Fin (1182432464543049 / 2 ^ 81)"
  using round_double_exponent [of "- 31" "4096 / 8375548381201"]
  by (simp add: js_divide_def pow2_def round_half_even_def Let_def floor_rat_numeral)

lemma times_wide_scale:
  "js_times 8377593692161 (Fin (1182143784742135 / 2 ^ 81)) = Fin (9007199254740991 / 2 ^ 41)"
  using round_double_exponent [of "11" "8377593692161 * (1182143784742135 / 2 ^ 81)"]
  by (simp add: pow2_def round_half_even_def Let_def floor_rat_numeral)

lemma times_tall_scale:
  "js_times 8375548381201 (Fin (1182143784742135 / 2 ^ 81)) = Fin (9005000231485439 / 2 ^ 41)"
  using round_double_exponent [of "11" "8375548381201 * (1182143784742135 / 2 ^ 81)"]
  by (simp add: pow2_def round_half_even_def Let_def floor_rat_numeral)

text \<open>
  The range of the natural dimensions matters for the one-pixel bound. For the numbers
  8377593692161 and 8375548381201, which are beyond \<open>unsigned long\<close> and the dimensions
  of no image, the planner returns the height 4094, while the height scaled exactly is
  above 4095.
\<close>

theorem calculateTargetSize_beyond_unsigned_long:
  "calculateTargetSize 8377593692161 8375548381201 4096
     = \<lparr>width = Fin 4095, height = Fin 4094\<rparr> \<and>
   4095 < of_nat 8375548381201 * exact_scale 8377593692161 8375548381201 4096"
proof -
  have s: "Math_min (js_divide 4096 8377593692161) (js_divide 4096 8375548381201)
      = Fin (1182143784742135 / 2 ^ 81)"
    unfolding divide_4096_wide divide_4096_tall by simp
  have "calculateTargetSize 8377593692161 8375548381201 4096
     = \<lparr>width = Fin 4095, height = Fin 4094\<rparr>"
    unfolding calculateTargetSize_def Let_def s times_wide_scale times_tall_scale
    by (simp add: floor_rat_numeral)
  then show ?thesis by (simp add: exact_scale_def)
qed

theorem calculateTargetSize_beyond_unsigned_long_witness:
  "to_unsigned_long (height (calculateTargetSize 8377593692161 8375548381201 4096)) = 4094"
  using calculateTargetSize_beyond_unsigned_long by simp

subsection \<open>The preview reference\<close>

lemma preview_invariant_clearError:
  "preview_invariant s \<Longrightarrow> preview_invariant (clearError s)"
  by (simp add: preview_invariant_def clearError_def split: option.splits)

lemma preview_invariant_resetUI:
  "preview_invariant s \<Longrightarrow> preview_invariant (resetUI s)"
  by (cases "currentObjectUrl s")
    (simp_all add: preview_invariant_def resetUI_def cleanupPreview_def clearError_def
      revokeObjectURL_def Let_def)

lemma preview_invariant_handleFiles:
  assumes "preview_invariant s"
  shows "preview_invariant (handleFiles fs s)"
proof (cases fs)
  case None
  then show ?thesis using assms by (simp add: handleFiles_def)
next
  case (Some l)
  show ?thesis
  proof (cases l)
    case Nil
    then show ?thesis using assms Some by (simp add: handleFiles_def)
  next
    case (Cons f rest)
    show ?thesis
    proof (cases "same_as_current f s")
      case True
      then show ?thesis using assms Some Cons by (simp add: handleFiles_def)
    next
      case False
      show ?thesis
      proof (cases "ok (validateFile (Some f))")
        case False
        then show ?thesis
          using assms Some Cons \<open>\<not> same_as_current f s\<close>
          by (simp add: handleFiles_def Let_def showError_def preview_invariant_def
              split: option.splits)
      next
        case True
        then show ?thesis
          using assms Some Cons \<open>\<not> same_as_current f s\<close>
          by (cases "currentObjectUrl s")
            (simp_all add: handleFiles_def Let_def showPreview_def cleanupPreview_def
              clearError_def createObjectURL_def revokeObjectURL_def preview_invariant_def)
      qed
    qed
  qed
qed

lemma preview_invariant_step:
  "preview_invariant s \<Longrightarrow> preview_invariant (ui_step e s)"
  by (cases e)
    (simp_all add: preview_invariant_handleFiles preview_invariant_clearError
      preview_invariant_resetUI)

lemma preview_invariant_run:
  "preview_invariant s \<Longrightarrow> preview_invariant (ui_run evs s)"
  by (induction evs arbitrary: s) (simp_all add: preview_invariant_step)

text \<open>
  Whatever files are chosen or dropped and whenever reset is clicked, starting from the
  fresh page: the live object URLs are exactly the current preview URL, if there is one
  (so at most one preview reference is live, and a superseded one has been revoked), and
  a preview URL is held only while a file is selected.
\<close>

theorem preview_reference_invariant:
  "preview_invariant (ui_run evs initial_state)"
  by (rule preview_invariant_run) (simp add: preview_invariant_def initial_state_def)

theorem preview_reference_invariant_witness:
  "blob_urls (ui_run [Dropped [photo_jpg], Input_changed [photo_as_png], Reset_clicked]
     initial_state) = []"
  using preview_reference_invariant
    [of "[Dropped [photo_jpg], Input_changed [photo_as_png], Reset_clicked]"]
  by (simp add: preview_invariant_def resetUI_def cleanupPreview_def clearError_def Let_def
      split: option.splits)


end
